theory Spec2Isabelle
  imports Main "HOL-Library.Word"
begin

unbundle bit_operations_syntax

section \<open>Byte buffers\<close>

text \<open>
  \<^verbatim>\<open>src/receive/VoiceReceiver.ts\<close> works on Node.js \<^verbatim>\<open>Buffer\<close> values. A buffer is
  modelled by the list of its bytes. The runtime operations the receiver calls are
  modelled with the behaviour Node documents for them, including the cases where they
  raise a \<^verbatim>\<open>RangeError\<close> and the cases where an index is clamped.
\<close>

type_synonym byte = "8 word"
type_synonym Buffer = "byte list"

datatype error =
    RangeError                  \<comment> \<open>raised by the \<^verbatim>\<open>Buffer\<close> accessors on an offset out of range\<close>
  | NoKnownSSRC                 \<comment> \<open>\<^verbatim>\<open>new Error(`No known SSRC for ${target}`)\<close>\<close>
  | FailedToParsePacket         \<comment> \<open>\<^verbatim>\<open>new Error('Failed to parse packet')\<close>\<close>

text \<open>\<^verbatim>\<open>buf[i]\<close>: the byte at index \<open>i\<close>, or \<^verbatim>\<open>undefined\<close> (here \<open>None\<close>) out of range.\<close>

definition Buffer_at :: "Buffer \<Rightarrow> nat \<Rightarrow> byte option" where
  "Buffer_at buf i = (if i < length buf then Some (buf ! i) else None)"

text \<open>\<^verbatim>\<open>buf.readUInt8(offset)\<close> raises unless \<open>offset < buf.length\<close>.\<close>

definition readUInt8 :: "Buffer \<Rightarrow> nat \<Rightarrow> error + byte" where
  "readUInt8 buf offset = (if offset < length buf then Inr (buf ! offset) else Inl RangeError)"

text \<open>\<^verbatim>\<open>buf.readUInt16BE(offset)\<close> raises unless \<open>offset + 2 \<le> buf.length\<close>.\<close>

definition readUInt16BE :: "Buffer \<Rightarrow> nat \<Rightarrow> error + nat" where
  "readUInt16BE buf offset =
     (if offset + 2 \<le> length buf
      then Inr (unat (buf ! offset) * 256 + unat (buf ! (offset + 1)))
      else Inl RangeError)"

text \<open>\<^verbatim>\<open>buf.readUInt32BE(offset)\<close> raises unless \<open>offset + 4 \<le> buf.length\<close>.\<close>

definition readUInt32BE :: "Buffer \<Rightarrow> nat \<Rightarrow> error + nat" where
  "readUInt32BE buf offset =
     (if offset + 4 \<le> length buf
      then Inr (unat (buf ! offset) * 16777216 + unat (buf ! (offset + 1)) * 65536
                + unat (buf ! (offset + 2)) * 256 + unat (buf ! (offset + 3)))
      else Inl RangeError)"

text \<open>
  \<^verbatim>\<open>buf.slice(start, end)\<close>: a negative index counts from the end of the buffer, every
  index is clamped to \<open>0 .. buf.length\<close>, a missing \<^verbatim>\<open>end\<close> is the length, and an end
  before the start gives the empty buffer. It never raises.
\<close>

definition adjustOffset :: "int \<Rightarrow> nat \<Rightarrow> nat" where
  "adjustOffset offset len =
     (if offset < 0 then (if offset + int len > 0 then nat (offset + int len) else 0)
      else if offset < int len then nat offset
      else len)"

definition Buffer_slice :: "Buffer \<Rightarrow> int \<Rightarrow> int option \<Rightarrow> Buffer" where
  "Buffer_slice buf start end =
     (let s = adjustOffset start (length buf);
          e = (case end of None \<Rightarrow> length buf | Some v \<Rightarrow> adjustOffset v (length buf))
      in take (e - s) (drop s buf))"

text \<open>
  \<^verbatim>\<open>source.copy(target, targetStart, sourceStart, sourceEnd)\<close> raises a \<^verbatim>\<open>RangeError\<close> on
  a negative \<^verbatim>\<open>targetStart\<close>, on a \<^verbatim>\<open>sourceStart\<close> that is negative or beyond the
  source, and on a negative \<^verbatim>\<open>sourceEnd\<close>. Otherwise it copies as many bytes of
  \<open>source[sourceStart .. sourceEnd)\<close> as the source and the target can hold; the model
  returns the target after the copy.
\<close>

definition Buffer_copy :: "Buffer \<Rightarrow> Buffer \<Rightarrow> int \<Rightarrow> int \<Rightarrow> int option \<Rightarrow> error + Buffer" where
  "Buffer_copy source target targetStart sourceStart sourceEnd =
     (if targetStart < 0 then Inl RangeError
      else if sourceStart < 0 \<or> sourceStart > int (length source) then Inl RangeError
      else if (case sourceEnd of None \<Rightarrow> False | Some e \<Rightarrow> e < 0) then Inl RangeError
      else
        (let ts = nat targetStart;
             ss = nat sourceStart;
             se = (case sourceEnd of None \<Rightarrow> length source | Some e \<Rightarrow> nat e)
         in if ts \<ge> length target \<or> ss \<ge> se then Inr target
            else
              (let nb = min (min se (length source) - ss) (length target - ts)
               in Inr (take ts target @ take nb (drop ss source) @ drop (ts + nb) target))))"

section \<open>The packet decoder\<close>

text \<open>
  \<^verbatim>\<open>methods.open\<close> of \<^verbatim>\<open>util/Secretbox\<close> is the authenticated-decryption primitive. It
  is a parameter of the model: it takes the ciphertext, the nonce and the key, and
  returns the plaintext or a falsy value (\<open>None\<close>). A primitive that throws instead
  of returning a falsy value is outside the model.
\<close>

type_synonym secretbox_open = "Buffer \<Rightarrow> Buffer \<Rightarrow> Buffer \<Rightarrow> Buffer option"

text \<open>
  \<^verbatim>\<open>decrypt\<close> writes into the nonce buffer it is given, which the caller shares across
  calls. The model returns the nonce buffer after the call with the result: \<open>Inl\<close> an
  exception, \<open>Inr None\<close> the \<^verbatim>\<open>undefined\<close> of a failed open, \<open>Inr (Some p)\<close> the
  decrypted packet. The local \<^verbatim>\<open>end\<close> stays \<^verbatim>\<open>undefined\<close> in the last branch.
\<close>

definition decrypt ::
  "secretbox_open \<Rightarrow> Buffer \<Rightarrow> string \<Rightarrow> Buffer \<Rightarrow> Buffer \<Rightarrow> Buffer \<times> (error + Buffer option)" where
  "decrypt methods_open buffer mode nonce secretKey =
     (case
        (if mode = ''xsalsa20_poly1305_lite'' then
           (case Buffer_copy buffer nonce 0 (int (length buffer) - 4) None of
              Inl e \<Rightarrow> Inl e
            | Inr nonce' \<Rightarrow> Inr (nonce', Some (int (length buffer) - 4)))
         else if mode = ''xsalsa20_poly1305_suffix'' then
           (case Buffer_copy buffer nonce 0 (int (length buffer) - 24) None of
              Inl e \<Rightarrow> Inl e
            | Inr nonce' \<Rightarrow> Inr (nonce', Some (int (length buffer) - 24)))
         else
           (case Buffer_copy buffer nonce 0 0 (Some 12) of
              Inl e \<Rightarrow> Inl e
            | Inr nonce' \<Rightarrow> Inr (nonce', None)))
      of
        Inl e \<Rightarrow> (nonce, Inl e)
      | Inr (nonce', end) \<Rightarrow>
          (nonce', Inr (methods_open (Buffer_slice buffer 12 end) nonce' secretKey)))"

text \<open>
  The loop of \<^verbatim>\<open>parsePacket\<close> over the header extensions: \<open>n\<close> iterations are left and
  \<open>offset\<close> is the cursor. A read past the end gives \<^verbatim>\<open>undefined\<close>, which is not
  \<open>0\<close> and which \<^verbatim>\<open>>> 4\<close> turns into \<open>0\<close>.
\<close>

definition shiftRight4 :: "byte option \<Rightarrow> nat" where
  "shiftRight4 byte = (case byte of None \<Rightarrow> 0 | Some b \<Rightarrow> unat (drop_bit 4 b))"

fun skipExtensions :: "Buffer \<Rightarrow> nat \<Rightarrow> nat \<Rightarrow> nat" where
  "skipExtensions packet 0 offset = offset"
| "skipExtensions packet (Suc n) offset =
     (let byte = Buffer_at packet offset;
          offset = offset + 1
      in if byte = Some 0 then skipExtensions packet n offset
         else skipExtensions packet n (offset + (1 + shiftRight4 byte)))"

definition parsePacket ::
  "secretbox_open \<Rightarrow> Buffer \<Rightarrow> string \<Rightarrow> Buffer \<Rightarrow> Buffer \<Rightarrow> Buffer \<times> (error + Buffer option)" where
  "parsePacket methods_open buffer mode nonce secretKey =
     (case decrypt methods_open buffer mode nonce secretKey of
        (nonce', Inl e) \<Rightarrow> (nonce', Inl e)
      | (nonce', Inr None) \<Rightarrow> (nonce', Inr None)
      | (nonce', Inr (Some packet)) \<Rightarrow>
          if Buffer_at packet 0 = Some 0xBE \<and> Buffer_at packet 1 = Some 0xDE \<and> length packet > 4
          then
            (case readUInt16BE packet 2 of
               Inl e \<Rightarrow> (nonce', Inl e)
             | Inr headerExtensionLength \<Rightarrow>
                 (let offset = skipExtensions packet headerExtensionLength 4
                  in case readUInt8 packet offset of
                       Inl e \<Rightarrow> (nonce', Inl e)
                     | Inr byte \<Rightarrow>
                         (let offset = (if byte = 0x00 \<or> byte = 0x02 then offset + 1 else offset)
                          in (nonce', Inr (Some (Buffer_slice packet (int offset) None))))))
          else (nonce', Inr (Some packet)))"

section \<open>The identity registry and the output channels\<close>

text \<open>
  \<^verbatim>\<open>subscribe\<close> takes a \<^verbatim>\<open>string | number\<close>: a user id or an audio SSRC. SSRCs are
  unsigned 32-bit values on the wire; the model uses natural numbers.
\<close>

datatype target = SSRC nat | UserId string

record VoiceUserData =
  userId :: string
  audioSSRC :: nat
  videoSSRC :: "nat option"

text \<open>
  Modelled from the spec: the class \<^verbatim>\<open>SSRCMap\<close> of \<^verbatim>\<open>receive/SSRCMap\<close> (the spec's Identity
  Registry). The registry holds at most one binding per participant; \<open>update\<close> inserts
  or replaces the binding of the participant, \<open>delete\<close> removes it, and \<open>get\<close> resolves
  a source id or a participant identity to the matching binding or to nothing.
\<close>

type_synonym SSRCMap = "VoiceUserData list"

definition SSRCMap_get :: "SSRCMap \<Rightarrow> target \<Rightarrow> VoiceUserData option" where
  "SSRCMap_get m t =
     (case t of
        SSRC n \<Rightarrow> find (\<lambda>data. audioSSRC data = n) m
      | UserId u \<Rightarrow> find (\<lambda>data. userId data = u) m)"

definition SSRCMap_update :: "VoiceUserData \<Rightarrow> SSRCMap \<Rightarrow> SSRCMap" where
  "SSRCMap_update data m = data # filter (\<lambda>old. userId old \<noteq> userId data) m"

definition SSRCMap_delete :: "string \<Rightarrow> SSRCMap \<Rightarrow> SSRCMap" where
  "SSRCMap_delete u m = filter (\<lambda>old. userId old \<noteq> u) m"

text \<open>
  Modelled from the spec: the class \<^verbatim>\<open>AudioReceiveStream\<close> of
  \<^verbatim>\<open>receive/AudioReceiveStream\<close> (the spec's Output Channel): the ordered frames pushed
  into it until it is closed, or a terminal failure. The listeners registered with
  \<^verbatim>\<open>once('close', ...)\<close> are kept with the stream; the only listener the receiver
  registers is \<^verbatim>\<open>() => this.subscriptions.delete(ssrc)\<close>, represented by its \<open>ssrc\<close>.
\<close>

record AudioReceiveStream =
  frames :: "Buffer list"
  destroyed :: "error option"
  closeListeners :: "nat list"

definition newAudioReceiveStream :: AudioReceiveStream where
  "newAudioReceiveStream = \<lparr>frames = [], destroyed = None, closeListeners = []\<rparr>"

definition stream_push :: "Buffer \<Rightarrow> AudioReceiveStream \<Rightarrow> AudioReceiveStream" where
  "stream_push packet s =
     (case destroyed s of None \<Rightarrow> s\<lparr>frames := frames s @ [packet]\<rparr> | Some e \<Rightarrow> s)"

definition stream_destroy :: "error \<Rightarrow> AudioReceiveStream \<Rightarrow> AudioReceiveStream" where
  "stream_destroy err s =
     (case destroyed s of None \<Rightarrow> s\<lparr>destroyed := Some err\<rparr> | Some e \<Rightarrow> s)"

definition stream_once_close :: "nat \<Rightarrow> AudioReceiveStream \<Rightarrow> AudioReceiveStream" where
  "stream_once_close ssrc s = s\<lparr>closeListeners := closeListeners s @ [ssrc]\<rparr>"

section \<open>The receiver\<close>

text \<open>
  \<^verbatim>\<open>connectionData\<close> is a \<^verbatim>\<open>Partial<ConnectionData>\<close>: every field may be missing. The
  receiver reads three of them.
\<close>

record ConnectionData =
  encryptionMode :: "string option"
  nonceBuffer :: "Buffer option"
  secretKey :: "Buffer option"

text \<open>
  The state of a \<^verbatim>\<open>VoiceReceiver\<close>. Streams are objects with an identity that the
  receiver and its consumers share: \<open>heap\<close> is the store of the streams created so
  far, a reference is an index into it, and \<open>subscriptions\<close> maps an SSRC to the
  reference of its stream.
\<close>

record VoiceReceiver =
  ssrcMap :: SSRCMap
  subscriptions :: "nat \<rightharpoonup> nat"
  connectionData :: ConnectionData
  heap :: "AudioReceiveStream list"

definition newVoiceReceiver :: VoiceReceiver where
  "newVoiceReceiver =
     \<lparr>ssrcMap = [], subscriptions = Map.empty,
      connectionData = \<lparr>encryptionMode = None, nonceBuffer = None, secretKey = None\<rparr>,
      heap = []\<rparr>"

subsection \<open>Signalling packets\<close>

text \<open>
  A packet of the WebSocket is an \<^verbatim>\<open>any\<close>. The model keeps the opcode, whether \<^verbatim>\<open>d\<close> is
  present, and the fields of \<^verbatim>\<open>d\<close> that \<^verbatim>\<open>onWsPacket\<close> reads. The three fields it tests
  with \<^verbatim>\<open>typeof\<close> are untyped values; \<^verbatim>\<open>video_ssrc\<close>, which it does not test, is a
  number or missing, as the \<^verbatim>\<open>videoSSRC\<close> it is stored in.
\<close>

datatype jsvalue = JUndefined | JNumber nat | JString string

datatype VoiceOPCodes = Speaking | ClientConnect | ClientDisconnect | OtherOpcode nat

record packet_data =
  d_user_id :: jsvalue
  d_ssrc :: jsvalue
  d_audio_ssrc :: jsvalue
  d_video_ssrc :: "nat option"

record ws_packet =
  packet_op :: VoiceOPCodes
  packet_d :: "packet_data option"

text \<open>\<^verbatim>\<open>packet.d?.field\<close>\<close>

definition optional_field :: "(packet_data \<Rightarrow> jsvalue) \<Rightarrow> ws_packet \<Rightarrow> jsvalue" where
  "optional_field field packet =
     (case packet_d packet of None \<Rightarrow> JUndefined | Some d \<Rightarrow> field d)"

definition onWsPacket :: "VoiceReceiver \<Rightarrow> ws_packet \<Rightarrow> VoiceReceiver" where
  "onWsPacket r packet =
     (case (packet_op packet, optional_field d_user_id packet) of
        (ClientDisconnect, JString user_id) \<Rightarrow>
          r\<lparr>ssrcMap := SSRCMap_delete user_id (ssrcMap r)\<rparr>
      | _ \<Rightarrow>
     (case (packet_op packet, optional_field d_user_id packet, optional_field d_ssrc packet) of
        (Speaking, JString user_id, JNumber ssrc) \<Rightarrow>
          r\<lparr>ssrcMap :=
              SSRCMap_update \<lparr>userId = user_id, audioSSRC = ssrc, videoSSRC = None\<rparr> (ssrcMap r)\<rparr>
      | _ \<Rightarrow>
     (case (packet_op packet, optional_field d_user_id packet,
            optional_field d_audio_ssrc packet, packet_d packet) of
        (ClientConnect, JString user_id, JNumber audio_ssrc, Some d) \<Rightarrow>
          r\<lparr>ssrcMap :=
              SSRCMap_update
                \<lparr>userId = user_id, audioSSRC = audio_ssrc,
                 videoSSRC = (if d_video_ssrc d = Some 0 then None else d_video_ssrc d)\<rparr>
                (ssrcMap r)\<rparr>
      | _ \<Rightarrow> r)))"

subsection \<open>Datagrams\<close>

text \<open>
  \<^verbatim>\<open>onUdpMessage\<close> returns nothing; the model returns the exception that left it, if
  any, with the state it leaves behind. The conjunction over \<^verbatim>\<open>connectionData\<close> tests
  truthiness: a missing field and the empty mode string both fail it.
\<close>

definition onUdpMessage :: "secretbox_open \<Rightarrow> VoiceReceiver \<Rightarrow> Buffer \<Rightarrow> error option \<times> VoiceReceiver" where
  "onUdpMessage methods_open r msg =
     (if length msg \<le> 8 then (None, r)
      else
        (case readUInt32BE msg 8 of
           Inl e \<Rightarrow> (Some e, r)
         | Inr ssrc \<Rightarrow>
             (case subscriptions r ssrc of
                None \<Rightarrow> (None, r)
              | Some stream \<Rightarrow>
                  (case SSRCMap_get (ssrcMap r) (SSRC ssrc) of
                     None \<Rightarrow> (None, r)
                   | Some userData \<Rightarrow>
                       (case (encryptionMode (connectionData r), nonceBuffer (connectionData r),
                              secretKey (connectionData r)) of
                          (Some mode, Some nonce, Some key) \<Rightarrow>
                            if mode = [] then (None, r)
                            else
                              (case parsePacket methods_open msg mode nonce key of
                                 (nonce', result) \<Rightarrow>
                                   (let r' = r\<lparr>connectionData :=
                                                (connectionData r)\<lparr>nonceBuffer := Some nonce'\<rparr>\<rparr>
                                    in case result of
                                         Inl e \<Rightarrow> (Some e, r')
                                       | Inr (Some packet) \<Rightarrow>
                                           (None, r'\<lparr>heap := (heap r')
                                              [stream := stream_push packet (heap r' ! stream)]\<rparr>)
                                       | Inr None \<Rightarrow>
                                           (None, r'\<lparr>heap := (heap r')
                                              [stream := stream_destroy FailedToParsePacket
                                                           (heap r' ! stream)]\<rparr>)))
                        | _ \<Rightarrow> (None, r))))))"

text \<open>The socket hands the receiver one datagram after the other.\<close>

fun onUdpMessages ::
  "secretbox_open \<Rightarrow> VoiceReceiver \<Rightarrow> Buffer list \<Rightarrow> error option list \<times> VoiceReceiver" where
  "onUdpMessages methods_open r [] = ([], r)"
| "onUdpMessages methods_open r (msg # msgs) =
     (case onUdpMessage methods_open r msg of
        (thrown, r') \<Rightarrow>
          (case onUdpMessages methods_open r' msgs of
             (rest, r'') \<Rightarrow> (thrown # rest, r'')))"

subsection \<open>Subscriptions\<close>

text \<open>
  \<^verbatim>\<open>subscribe\<close> returns the reference of the stream with the state after the call, or
  the error it throws. \<^verbatim>\<open>!ssrc\<close> holds for a missing binding and for the SSRC \<open>0\<close>.
\<close>

definition subscribe :: "VoiceReceiver \<Rightarrow> target \<Rightarrow> error + (nat \<times> VoiceReceiver)" where
  "subscribe r target =
     (case map_option audioSSRC (SSRCMap_get (ssrcMap r) target) of
        None \<Rightarrow> Inl NoKnownSSRC
      | Some ssrc \<Rightarrow>
          if ssrc = 0 then Inl NoKnownSSRC
          else
            (case subscriptions r ssrc of
               Some existing \<Rightarrow> Inr (existing, r)
             | None \<Rightarrow>
                 (let stream = length (heap r)
                  in Inr (stream,
                          r\<lparr>heap := heap r @ [stream_once_close ssrc newAudioReceiveStream],
                            subscriptions := (subscriptions r)(ssrc := Some stream)\<rparr>))))"

text \<open>
  The \<^verbatim>\<open>'close'\<close> event of a stream runs the listeners registered on it, once: each
  deletes the subscription of its SSRC.
\<close>

definition Map_delete :: "nat \<Rightarrow> (nat \<rightharpoonup> nat) \<Rightarrow> (nat \<rightharpoonup> nat)" where
  "Map_delete ssrc subs = subs(ssrc := None)"

definition emitClose :: "VoiceReceiver \<Rightarrow> nat \<Rightarrow> VoiceReceiver" where
  "emitClose r stream =
     r\<lparr>subscriptions :=
         fold Map_delete (closeListeners (heap r ! stream)) (subscriptions r),
       heap := (heap r)[stream := (heap r ! stream)\<lparr>closeListeners := []\<rparr>]\<rparr>"

section \<open>The decoder in the words of the specification\<close>

text \<open>
  The specification describes the stripping of the header extensions on the bytes that
  remain, element by element. \<open>nibble\<close> says which half of an element's leading byte
  holds its length: the element's body is \<open>nibble leading + 1\<close> bytes long, a leading
  byte \<open>0\<close> is padding with no body. The block ends where the buffer ends.
\<close>

definition highNibble :: "byte \<Rightarrow> nat" where
  "highNibble b = unat (drop_bit 4 b)"

definition lowNibble :: "byte \<Rightarrow> nat" where
  "lowNibble b = unat (b AND 0x0F)"

fun spec_afterElements :: "(byte \<Rightarrow> nat) \<Rightarrow> nat \<Rightarrow> Buffer \<Rightarrow> Buffer" where
  "spec_afterElements nibble 0 rest = rest"
| "spec_afterElements nibble (Suc n) [] = []"
| "spec_afterElements nibble (Suc n) (leading # rest) =
     (if leading = 0 then spec_afterElements nibble n rest
      else spec_afterElements nibble n (drop (nibble leading + 1) rest))"

definition spec_skipAlignment :: "Buffer \<Rightarrow> Buffer" where
  "spec_skipAlignment rest =
     (case rest of [] \<Rightarrow> [] | b # bs \<Rightarrow> if b = 0x00 \<or> b = 0x02 then bs else b # bs)"

definition spec_wordCount :: "Buffer \<Rightarrow> nat" where
  "spec_wordCount payload = 256 * unat (payload ! 2) + unat (payload ! 3)"

definition spec_stripExtensions :: "(byte \<Rightarrow> nat) \<Rightarrow> Buffer \<Rightarrow> Buffer" where
  "spec_stripExtensions nibble payload =
     spec_skipAlignment (spec_afterElements nibble (spec_wordCount payload) (drop 4 payload))"

text \<open>
  Bytes copied into the start of the nonce scratch buffer overwrite its first bytes, as
  far as the buffer has room, and leave the rest of it as it was.
\<close>

definition spec_copyToStart :: "Buffer \<Rightarrow> Buffer \<Rightarrow> Buffer" where
  "spec_copyToStart bytes scratch = take (length scratch) bytes @ drop (length bytes) scratch"

text \<open>
  The number of bytes at the end of a datagram that carry the nonce: 4 in the lite mode,
  24 in the suffix mode, none in the normal mode, whose nonce is the header.
\<close>

definition spec_trailingNonce :: "string \<Rightarrow> nat" where
  "spec_trailingNonce mode =
     (if mode = ''xsalsa20_poly1305_lite'' then 4
      else if mode = ''xsalsa20_poly1305_suffix'' then 24
      else 0)"

section \<open>Concrete inputs\<close>

text \<open>
  An opening primitive that returns the ciphertext it is given makes the span that
  \<^verbatim>\<open>decrypt\<close> selects visible; one that returns a fixed payload stands for a datagram
  that decrypts to that payload.
\<close>

definition echo_open :: secretbox_open where
  "echo_open ciphertext nonce key = Some ciphertext"

definition opens_to :: "Buffer \<Rightarrow> secretbox_open" where
  "opens_to payload ciphertext nonce key = Some payload"

definition nonce24 :: Buffer where
  "nonce24 = replicate 24 0xFF"

definition datagram40 :: Buffer where
  "datagram40 = map of_nat [0..<40]"

definition datagram20 :: Buffer where
  "datagram20 = map of_nat [0..<20]"

definition payloadOneElement :: Buffer where
  "payloadOneElement = [0xBE, 0xDE, 0x00, 0x01, 0x10, 0xAA, 0xBB, 0xCC, 0xDD]"

text \<open>
  A session with one participant: a \<^verbatim>\<open>Speaking\<close> packet binds the user to the SSRC
  1234, a consumer subscribes to it, and the connection sets its cipher parameters.
\<close>

definition speakingPacket :: "nat \<Rightarrow> ws_packet" where
  "speakingPacket n =
     \<lparr>packet_op = Speaking,
      packet_d = Some \<lparr>d_user_id = JString ''user'', d_ssrc = JNumber n,
                       d_audio_ssrc = JUndefined, d_video_ssrc = None\<rparr>\<rparr>"

definition connectPacket :: "nat option \<Rightarrow> ws_packet" where
  "connectPacket video =
     \<lparr>packet_op = ClientConnect,
      packet_d = Some \<lparr>d_user_id = JString ''user'', d_ssrc = JUndefined,
                       d_audio_ssrc = JNumber 1234, d_video_ssrc = video\<rparr>\<rparr>"

definition subscribedReceiver :: VoiceReceiver where
  "subscribedReceiver =
     \<lparr>ssrcMap = [\<lparr>userId = ''user'', audioSSRC = 1234, videoSSRC = None\<rparr>],
      subscriptions = Map.empty(1234 := Some 0),
      connectionData = \<lparr>encryptionMode = None, nonceBuffer = None, secretKey = None\<rparr>,
      heap = [\<lparr>frames = [], destroyed = None, closeListeners = [1234]\<rparr>]\<rparr>"

definition sessionKey :: Buffer where
  "sessionKey = replicate 32 0x07"

definition keyed :: "string \<Rightarrow> VoiceReceiver \<Rightarrow> VoiceReceiver" where
  "keyed mode r =
     r\<lparr>connectionData :=
         \<lparr>encryptionMode = Some mode, nonceBuffer = Some nonce24, secretKey = Some sessionKey\<rparr>\<rparr>"

text \<open>Datagrams: the 12-byte header with the SSRC 1234 at offset 8, and what follows it.\<close>

definition header1234 :: Buffer where
  "header1234 = [0x80, 0x78, 0x00, 0x01, 0x00, 0x00, 0x00, 0x01, 0x00, 0x00, 0x04, 0xD2]"

definition datagram9 :: Buffer where
  "datagram9 = [0x80, 0x78, 0x00, 0x01, 0x00, 0x00, 0x00, 0x01, 0x00]"

definition datagram10 :: Buffer where
  "datagram10 = [0x80, 0x78, 0x00, 0x01, 0x00, 0x00, 0x00, 0x01, 0x00, 0x00]"

definition payloadOverrun :: Buffer where
  "payloadOverrun = [0xBE, 0xDE, 0x00, 0x01, 0x10]"

definition shortDatagram1234 :: Buffer where
  "shortDatagram1234 = header1234 @ replicate 8 0x00"

definition datagram1234 :: Buffer where
  "datagram1234 = header1234 @ replicate 28 0x00"

section \<open>Stripping the header extensions\<close>

lemma spec_afterElements_Nil: "spec_afterElements nibble n [] = []"
  by (cases n) simp_all

lemma skipExtensions_refines:
  "spec_afterElements highNibble n (drop offset packet) \<noteq> [] \<Longrightarrow>
     skipExtensions packet n offset < length packet \<and>
     drop (skipExtensions packet n offset) packet = spec_afterElements highNibble n (drop offset packet)"
proof (induction n arbitrary: offset)
  case 0
  then show ?case by simp
next
  case (Suc n)
  from Suc.prems have inside: "offset < length packet"
    by (cases "offset < length packet") simp_all
  then have split: "drop offset packet = packet ! offset # drop (Suc offset) packet"
    by (simp add: Cons_nth_drop_Suc)
  show ?case
  proof (cases "packet ! offset = 0")
    case True
    with Suc.prems split have "spec_afterElements highNibble n (drop (Suc offset) packet) \<noteq> []"
      by simp
    from Suc.IH [OF this] True inside split show ?thesis
      by (simp add: Buffer_at_def)
  next
    case False
    let ?next = "Suc offset + (1 + highNibble (packet ! offset))"
    have dd: "drop (highNibble (packet ! offset) + 1) (drop (Suc offset) packet) = drop ?next packet"
      by (simp add: add.commute)
    with Suc.prems split False have "spec_afterElements highNibble n (drop ?next packet) \<noteq> []"
      by simp
    from Suc.IH [OF this] False inside split dd show ?thesis
      by (simp add: Buffer_at_def shiftRight4_def highNibble_def)
  qed
qed

lemma readUInt16BE_wordCount:
  "4 < length packet \<Longrightarrow> readUInt16BE packet 2 = Inr (spec_wordCount packet)"
  by (simp add: readUInt16BE_def spec_wordCount_def)

lemma Buffer_slice_from: "Buffer_slice buf (int offset) None = drop offset buf"
  by (simp add: Buffer_slice_def adjustOffset_def)

lemma spec_skipAlignment_drop:
  assumes "offset < length packet"
  shows "spec_skipAlignment (drop offset packet) =
         drop (if packet ! offset = 0x00 \<or> packet ! offset = 0x02 then offset + 1 else offset) packet"
proof -
  from assms have "drop offset packet = packet ! offset # drop (Suc offset) packet"
    by (simp add: Cons_nth_drop_Suc)
  then show ?thesis by (simp add: spec_skipAlignment_def)
qed

text \<open>
  What the source computes on a payload that starts with \<open>0xBE 0xDE\<close> and is longer
  than 4 bytes is the rule of the specification with \<^verbatim>\<open>byte >> 4\<close>, the high nibble of
  the leading byte, in the place of the low nibble, as long as the counted elements end
  inside the payload: the count, the padding byte, the byte skipped after the elements
  and the remainder returned are as the specification has them.
\<close>

lemma parsePacket_high_nibble_refinement:
  assumes dec: "decrypt methods_open buffer mode nonce key = (nonce', Inr (Some packet))"
    and marker: "Buffer_at packet 0 = Some 0xBE" "Buffer_at packet 1 = Some 0xDE"
    and len: "length packet > 4"
    and inside: "spec_afterElements highNibble (spec_wordCount packet) (drop 4 packet) \<noteq> []"
  shows "parsePacket methods_open buffer mode nonce key =
         (nonce', Inr (Some (spec_stripExtensions highNibble packet)))"
proof -
  let ?offset = "skipExtensions packet (spec_wordCount packet) 4"
  from skipExtensions_refines [OF inside]
  have off: "?offset < length packet"
    and rest: "drop ?offset packet = spec_afterElements highNibble (spec_wordCount packet) (drop 4 packet)"
    by simp_all
  have "spec_stripExtensions highNibble packet = spec_skipAlignment (drop ?offset packet)"
    by (simp add: spec_stripExtensions_def rest)
  also have "\<dots> = drop (if packet ! ?offset = 0x00 \<or> packet ! ?offset = 0x02 then ?offset + 1 else ?offset) packet"
    by (rule spec_skipAlignment_drop [OF off])
  finally have spec: "spec_stripExtensions highNibble packet =
      drop (if packet ! ?offset = 0x00 \<or> packet ! ?offset = 0x02 then ?offset + 1 else ?offset) packet" .
  from off have rd: "readUInt8 packet ?offset = Inr (packet ! ?offset)"
    by (simp add: readUInt8_def)
  show ?thesis
    unfolding parsePacket_def dec spec
    using marker len
    by (simp add: readUInt16BE_wordCount rd Let_def Buffer_slice_from del: of_nat_add of_nat_Suc)
qed

text \<open>
  C1: the body of an extension element is as long as the LOW nibble of its leading byte
  plus one, as in the one-byte header of RTP that the source names in its comment. The
  source takes the high nibble. On the payload \<open>BE DE 00 01 10 AA BB CC DD\<close>, one
  element with the leading byte \<open>0x10\<close>, the rule gives one body byte and the
  remainder \<open>BB CC DD\<close>; \<^verbatim>\<open>parsePacket\<close> passes two body bytes and returns \<open>CC DD\<close>.
\<close>

theorem parsePacket_takes_length_from_high_nibble:
  "snd (parsePacket (opens_to payloadOneElement) datagram40 ''xsalsa20_poly1305'' nonce24 []) =
     Inr (Some [0xCC, 0xDD]) \<and>
   spec_stripExtensions lowNibble payloadOneElement = [0xBB, 0xCC, 0xDD]"
  by code_simp

section \<open>Nonce and ciphertext span\<close>

lemma adjustOffset_nat: "adjustOffset (int k) len = min k len"
  by (simp add: adjustOffset_def min_def)

lemma adjustOffset_back:
  assumes "n \<le> len"
  shows "adjustOffset (int len - int n) len = len - n"
proof -
  have "int len - int n = int (len - n)" using assms by (rule of_nat_diff [symmetric])
  then have "adjustOffset (int len - int n) len = adjustOffset (int (len - n)) len"
    by (rule arg_cong)
  also have "\<dots> = min (len - n) len" by (rule adjustOffset_nat)
  also have "\<dots> = len - n" by (rule min_absorb1) (rule diff_le_self)
  finally show ?thesis .
qed

lemma Buffer_slice_12_end:
  assumes "n \<le> length buf"
  shows "Buffer_slice buf 12 (Some (int (length buf) - int n)) = drop 12 (take (length buf - n) buf)"
proof -
  have s: "adjustOffset 12 (length buf) = min 12 (length buf)"
    using adjustOffset_nat [of 12 "length buf"] by simp
  have "Buffer_slice buf 12 (Some (int (length buf) - int n)) =
        take (length buf - n - min 12 (length buf)) (drop (min 12 (length buf)) buf)"
    by (simp add: Buffer_slice_def Let_def adjustOffset_back [OF assms] s)
  also have "\<dots> = take (length buf - n - 12) (drop 12 buf)"
    by (cases "12 \<le> length buf") (simp_all add: min_def)
  also have "\<dots> = drop 12 (take (length buf - n) buf)"
    by (simp add: drop_take)
  finally show ?thesis .
qed

lemma Buffer_slice_12_None: "Buffer_slice buf 12 None = drop 12 buf"
  using adjustOffset_nat [of 12 "length buf"]
  by (cases "12 \<le> length buf") (simp_all add: Buffer_slice_def Let_def min_def)

lemma take_min_length: "take (min (length xs) n) xs = take n xs"
  by (cases "n \<le> length xs") (simp_all add: min_def)

lemma drop_min_length: "drop (min n (length xs)) xs = drop n xs"
  by (cases "n \<le> length xs") (simp_all add: min_def)

lemma Buffer_copy_from:
  assumes "k \<le> length source"
  shows "Buffer_copy source target 0 (int k) None = Inr (spec_copyToStart (drop k source) target)"
proof (cases "target = [] \<or> k = length source")
  case True
  then show ?thesis
    using assms by (auto simp: Buffer_copy_def spec_copyToStart_def)
next
  case False
  with assms have lt: "k < length source" and t: "target \<noteq> []" by simp_all
  have a: "take (min (length source - k) (length target)) (drop k source) =
           take (length target) (drop k source)"
    using take_min_length [of "drop k source" "length target"] by simp
  have b: "drop (min (length source - k) (length target)) target = drop (length source - k) target"
    by (rule drop_min_length)
  from lt t show ?thesis
    by (simp add: Buffer_copy_def Let_def spec_copyToStart_def a b)
qed

lemma Buffer_copy_first12:
  "Buffer_copy source target 0 0 (Some 12) = Inr (spec_copyToStart (take 12 source) target)"
proof (cases "target = []")
  case True
  then show ?thesis
    by (simp add: Buffer_copy_def spec_copyToStart_def)
next
  case False
  have a: "take (min (min 12 (length source)) (length target)) source =
           take (length target) (take 12 source)"
    using take_min_length [of source "min 12 (length target)"]
    by (simp add: min.commute min.left_commute)
  have b: "drop (min (min 12 (length source)) (length target)) target =
           drop (min (length source) 12) target"
    using drop_min_length [of "min 12 (length source)" target] by (simp add: min.commute)
  from False show ?thesis
    by (simp add: Buffer_copy_def Let_def spec_copyToStart_def a b)
qed

lemma Buffer_copy_last:
  assumes "n \<le> length source"
  shows "Buffer_copy source target 0 (int (length source) - int n) None =
         Inr (spec_copyToStart (drop (length source - n) source) target)"
proof -
  have e: "int (length source) - int n = int (length source - n)"
    using assms by (rule of_nat_diff [symmetric])
  show ?thesis
    unfolding e by (rule Buffer_copy_from) simp
qed

lemma Buffer_copy_negative:
  "sourceStart < 0 \<Longrightarrow> Buffer_copy source target 0 sourceStart sourceEnd = Inl RangeError"
  by (simp add: Buffer_copy_def)

lemma decrypt_lite:
  assumes "4 \<le> length buffer"
  shows "decrypt methods_open buffer ''xsalsa20_poly1305_lite'' nonce key =
        (spec_copyToStart (drop (length buffer - 4) buffer) nonce,
         Inr (methods_open (drop 12 (take (length buffer - 4) buffer))
                (spec_copyToStart (drop (length buffer - 4) buffer) nonce) key))"
  using Buffer_copy_last [OF assms, of nonce] Buffer_slice_12_end [OF assms]
  by (simp add: decrypt_def)

lemma decrypt_suffix:
  assumes "24 \<le> length buffer"
  shows "decrypt methods_open buffer ''xsalsa20_poly1305_suffix'' nonce key =
        (spec_copyToStart (drop (length buffer - 24) buffer) nonce,
         Inr (methods_open (drop 12 (take (length buffer - 24) buffer))
                (spec_copyToStart (drop (length buffer - 24) buffer) nonce) key))"
  using Buffer_copy_last [OF assms, of nonce] Buffer_slice_12_end [OF assms]
  by (simp add: decrypt_def)

lemma decrypt_normal:
  assumes "mode \<noteq> ''xsalsa20_poly1305_lite''" and "mode \<noteq> ''xsalsa20_poly1305_suffix''"
  shows "decrypt methods_open buffer mode nonce key =
        (spec_copyToStart (take 12 buffer) nonce,
         Inr (methods_open (drop 12 buffer) (spec_copyToStart (take 12 buffer) nonce) key))"
  using assms by (simp add: decrypt_def Buffer_copy_first12 Buffer_slice_12_None)

lemma decrypt_lite_short:
  "length buffer < 4 \<Longrightarrow>
   decrypt methods_open buffer ''xsalsa20_poly1305_lite'' nonce key = (nonce, Inl RangeError)"
  by (simp add: decrypt_def Buffer_copy_negative)

lemma decrypt_suffix_short:
  "length buffer < 24 \<Longrightarrow>
   decrypt methods_open buffer ''xsalsa20_poly1305_suffix'' nonce key = (nonce, Inl RangeError)"
  by (simp add: decrypt_def Buffer_copy_negative)

text \<open>
  C2, as the source has it: for a datagram that has the bytes the mode takes its nonce
  from, \<^verbatim>\<open>decrypt\<close> selects the nonce and the ciphertext span by the mode. In the lite
  mode (a datagram of at least 4 bytes) the last 4 bytes of the datagram are copied to
  the start of the nonce buffer and the span ends 4 bytes before the end of the
  datagram; in the suffix mode (at least 24 bytes) the last 24 bytes are copied and the
  span ends 24 bytes before the end; in any other mode (the normal one, every datagram)
  the first 12 bytes are copied and the span runs from byte 12 to the end of the
  datagram. The bytes are copied as far as the nonce buffer has room. \<open>methods_open\<close>,
  the nonce buffer and the key are arbitrary, so the equations fix the arguments of
  the opening primitive.
\<close>

theorem decrypt_selects_nonce_and_span:
  "(4 \<le> length buffer \<longrightarrow>
      decrypt methods_open buffer ''xsalsa20_poly1305_lite'' nonce key =
        (spec_copyToStart (drop (length buffer - 4) buffer) nonce,
         Inr (methods_open (drop 12 (take (length buffer - 4) buffer))
                (spec_copyToStart (drop (length buffer - 4) buffer) nonce) key))) \<and>
   (24 \<le> length buffer \<longrightarrow>
      decrypt methods_open buffer ''xsalsa20_poly1305_suffix'' nonce key =
        (spec_copyToStart (drop (length buffer - 24) buffer) nonce,
         Inr (methods_open (drop 12 (take (length buffer - 24) buffer))
                (spec_copyToStart (drop (length buffer - 24) buffer) nonce) key))) \<and>
   (mode \<noteq> ''xsalsa20_poly1305_lite'' \<and> mode \<noteq> ''xsalsa20_poly1305_suffix'' \<longrightarrow>
      decrypt methods_open buffer mode nonce key =
        (spec_copyToStart (take 12 buffer) nonce,
         Inr (methods_open (drop 12 buffer) (spec_copyToStart (take 12 buffer) nonce) key)))"
  using decrypt_lite decrypt_suffix decrypt_normal by blast

theorem decrypt_selects_nonce_and_span_witness:
  "decrypt echo_open datagram40 ''xsalsa20_poly1305_lite'' nonce24 [] =
     (map of_nat [36..<40] @ replicate 20 0xFF, Inr (Some (map of_nat [12..<36]))) \<and>
   decrypt echo_open datagram40 ''xsalsa20_poly1305_suffix'' nonce24 [] =
     (map of_nat [16..<40], Inr (Some (map of_nat [12..<16]))) \<and>
   decrypt echo_open datagram40 ''xsalsa20_poly1305'' nonce24 [] =
     (map of_nat [0..<12] @ replicate 12 0xFF, Inr (Some (map of_nat [12..<40])))"
proof -
  note all = decrypt_selects_nonce_and_span
    [of datagram40 echo_open nonce24 "[]" "''xsalsa20_poly1305''"]
  have size: "length datagram40 = 40"
    by (simp add: datagram40_def)
  have lite: "decrypt echo_open datagram40 ''xsalsa20_poly1305_lite'' nonce24 [] =
        (spec_copyToStart (drop (length datagram40 - 4) datagram40) nonce24,
         Inr (echo_open (drop 12 (take (length datagram40 - 4) datagram40))
                (spec_copyToStart (drop (length datagram40 - 4) datagram40) nonce24) []))"
    using all size by simp
  have suffix: "decrypt echo_open datagram40 ''xsalsa20_poly1305_suffix'' nonce24 [] =
        (spec_copyToStart (drop (length datagram40 - 24) datagram40) nonce24,
         Inr (echo_open (drop 12 (take (length datagram40 - 24) datagram40))
                (spec_copyToStart (drop (length datagram40 - 24) datagram40) nonce24) []))"
    using all size by simp
  have normal: "decrypt echo_open datagram40 ''xsalsa20_poly1305'' nonce24 [] =
        (spec_copyToStart (take 12 datagram40) nonce24,
         Inr (echo_open (drop 12 datagram40) (spec_copyToStart (take 12 datagram40) nonce24) []))"
    using all by simp
  show ?thesis
    unfolding lite suffix normal by code_simp
qed

text \<open>
  C2 as stated speaks of every datagram and of all the bytes named. A datagram of 20
  bytes in the suffix mode and one of 3 bytes in the lite mode have no such bytes:
  \<^verbatim>\<open>buffer.copy\<close> raises, nothing is copied and no span is selected. A nonce buffer of
  2 bytes takes 2 of the last 4 bytes.
\<close>

theorem decrypt_selection_counterexample:
  "decrypt echo_open shortDatagram1234 ''xsalsa20_poly1305_suffix'' nonce24 [] =
     (nonce24, Inl RangeError) \<and>
   decrypt echo_open [0x01, 0x02, 0x03] ''xsalsa20_poly1305_lite'' nonce24 [] =
     (nonce24, Inl RangeError) \<and>
   decrypt echo_open datagram40 ''xsalsa20_poly1305_lite'' [0xFF, 0xFF] [] =
     ([0x24, 0x25], Inr (Some (map of_nat [12..<36])))"
  by code_simp

text \<open>
  C10: in every mode the ciphertext handed to the opening primitive begins at byte 12
  of the datagram. Whenever \<^verbatim>\<open>decrypt\<close> calls the primitive, for every primitive, nonce
  buffer and key, the span it hands over is the datagram without its first 12 bytes
  and without the trailing nonce of the mode; it calls the primitive whenever the
  datagram has the trailing nonce; and byte \<open>i\<close> of that span is byte \<open>12 + i\<close> of the
  datagram.
\<close>

theorem ciphertext_begins_at_12:
  "(\<forall>nonce' result.
      decrypt methods_open buffer mode nonce key = (nonce', Inr result) \<longrightarrow>
      result = methods_open (drop 12 (take (length buffer - spec_trailingNonce mode) buffer)) nonce' key) \<and>
   (spec_trailingNonce mode \<le> length buffer \<longrightarrow>
      (\<exists>nonce'. decrypt methods_open buffer mode nonce key =
         (nonce', Inr (methods_open (drop 12 (take (length buffer - spec_trailingNonce mode) buffer))
                         nonce' key)))) \<and>
   length (drop 12 (take (length buffer - spec_trailingNonce mode) buffer)) =
     length buffer - spec_trailingNonce mode - 12 \<and>
   (\<forall>i. i < length buffer - spec_trailingNonce mode - 12 \<longrightarrow>
      drop 12 (take (length buffer - spec_trailingNonce mode) buffer) ! i = buffer ! (12 + i))"
proof (intro conjI allI impI)
  fix nonce' result
  assume dec: "decrypt methods_open buffer mode nonce key = (nonce', Inr result)"
  show "result = methods_open (drop 12 (take (length buffer - spec_trailingNonce mode) buffer)) nonce' key"
  proof (cases "mode = ''xsalsa20_poly1305_lite''")
    case True
    with dec have "4 \<le> length buffer"
      using decrypt_lite_short [of buffer methods_open nonce key]
      by (cases "4 \<le> length buffer") simp_all
    from decrypt_lite [OF this, of methods_open nonce key] dec True show ?thesis
      by (auto simp: spec_trailingNonce_def)
  next
    case notLite: False
    show ?thesis
    proof (cases "mode = ''xsalsa20_poly1305_suffix''")
      case True
      with dec have "24 \<le> length buffer"
        using decrypt_suffix_short [of buffer methods_open nonce key]
        by (cases "24 \<le> length buffer") simp_all
      from decrypt_suffix [OF this, of methods_open nonce key] dec True show ?thesis
        by (auto simp: spec_trailingNonce_def)
    next
      case False
      from decrypt_normal [OF notLite False, of methods_open buffer nonce key] dec notLite False
      show ?thesis
        by (auto simp: spec_trailingNonce_def)
    qed
  qed
next
  assume "spec_trailingNonce mode \<le> length buffer"
  then show "\<exists>nonce'. decrypt methods_open buffer mode nonce key =
         (nonce', Inr (methods_open (drop 12 (take (length buffer - spec_trailingNonce mode) buffer))
                         nonce' key))"
    using decrypt_lite [of buffer methods_open nonce key]
      decrypt_suffix [of buffer methods_open nonce key]
      decrypt_normal [of mode methods_open buffer nonce key]
    by (auto simp: spec_trailingNonce_def split: if_splits)
next
  show "length (drop 12 (take (length buffer - spec_trailingNonce mode) buffer)) =
     length buffer - spec_trailingNonce mode - 12"
    by simp
next
  fix i
  assume "i < length buffer - spec_trailingNonce mode - 12"
  then show "drop 12 (take (length buffer - spec_trailingNonce mode) buffer) ! i = buffer ! (12 + i)"
    by simp
qed

theorem ciphertext_begins_at_12_witness:
  "decrypt echo_open datagram40 ''xsalsa20_poly1305_lite'' nonce24 [] =
     (map of_nat [36..<40] @ replicate 20 0xFF, Inr (Some (map of_nat [12..<36]))) \<and>
   drop 12 (take (length datagram40 - spec_trailingNonce ''xsalsa20_poly1305_lite'') datagram40) =
     map of_nat [12..<36] \<and>
   decrypt echo_open datagram40 ''xsalsa20_poly1305_suffix'' nonce24 [] =
     (map of_nat [16..<40], Inr (Some (map of_nat [12..<16]))) \<and>
   drop 12 (take (length datagram40 - spec_trailingNonce ''xsalsa20_poly1305_suffix'') datagram40) =
     map of_nat [12..<16]"
proof -
  have lite: "decrypt echo_open datagram40 ''xsalsa20_poly1305_lite'' nonce24 [] =
     (map of_nat [36..<40] @ replicate 20 0xFF, Inr (Some (map of_nat [12..<36])))"
    by code_simp
  have suffix: "decrypt echo_open datagram40 ''xsalsa20_poly1305_suffix'' nonce24 [] =
     (map of_nat [16..<40], Inr (Some (map of_nat [12..<16])))"
    by code_simp
  from ciphertext_begins_at_12 [of echo_open datagram40 "''xsalsa20_poly1305_lite''" nonce24 "[]"] lite
  have "Some (map of_nat [12..<36]) =
      echo_open (drop 12 (take (length datagram40 - spec_trailingNonce ''xsalsa20_poly1305_lite'') datagram40))
        (map of_nat [36..<40] @ replicate 20 0xFF) []"
    by blast
  moreover
  from ciphertext_begins_at_12 [of echo_open datagram40 "''xsalsa20_poly1305_suffix''" nonce24 "[]"] suffix
  have "Some (map of_nat [12..<16]) =
      echo_open (drop 12 (take (length datagram40 - spec_trailingNonce ''xsalsa20_poly1305_suffix'') datagram40))
        (map of_nat [16..<40]) []"
    by blast
  ultimately show ?thesis
    using lite suffix by (simp add: echo_open_def)
qed

section \<open>Datagrams shorter than the nonce\<close>

text \<open>
  C3 asks that a datagram shorter than the trailing nonce of its mode ends in a decode
  failure, with no exception. In the suffix mode \<^verbatim>\<open>buffer.length - 24\<close> is negative for
  such a datagram and \<^verbatim>\<open>buffer.copy\<close> raises a \<^verbatim>\<open>RangeError\<close>, which neither \<^verbatim>\<open>decrypt\<close>
  nor \<^verbatim>\<open>parsePacket\<close> catches: on a datagram of 20 bytes both raise, for every opening
  primitive and key, and the nonce buffer is untouched.
\<close>

theorem suffix_short_datagram_raises:
  "decrypt methods_open datagram20 ''xsalsa20_poly1305_suffix'' nonce24 key =
     (nonce24, Inl RangeError) \<and>
   parsePacket methods_open datagram20 ''xsalsa20_poly1305_suffix'' nonce24 key =
     (nonce24, Inl RangeError)"
proof -
  have "length datagram20 < 24"
    by (simp add: datagram20_def)
  then have "decrypt methods_open datagram20 ''xsalsa20_poly1305_suffix'' nonce24 key =
     (nonce24, Inl RangeError)"
    by (rule decrypt_suffix_short)
  then show ?thesis
    by (simp add: parsePacket_def)
qed

section \<open>The signalling path\<close>

text \<open>
  C9: a \<^verbatim>\<open>ClientConnect\<close> packet with a string \<^verbatim>\<open>user_id\<close> and a numeric \<^verbatim>\<open>audio_ssrc\<close>
  makes \<^verbatim>\<open>onWsPacket\<close> update the registry with a binding whose video SSRC is absent
  when the packet's \<^verbatim>\<open>video_ssrc\<close> is \<open>0\<close>, and is the packet's \<^verbatim>\<open>video_ssrc\<close> otherwise;
  resolving the user afterwards gives that value.
\<close>

theorem clientConnect_records_video_ssrc:
  assumes "packet_op packet = ClientConnect"
    and "packet_d packet = Some d"
    and "d_user_id d = JString user"
    and "d_audio_ssrc d = JNumber audio"
  shows "onWsPacket r packet =
           r\<lparr>ssrcMap := SSRCMap_update
                \<lparr>userId = user, audioSSRC = audio,
                 videoSSRC = (if d_video_ssrc d = Some 0 then None else d_video_ssrc d)\<rparr>
                (ssrcMap r)\<rparr> \<and>
         map_option videoSSRC (SSRCMap_get (ssrcMap (onWsPacket r packet)) (UserId user)) =
           Some (if d_video_ssrc d = Some 0 then None else d_video_ssrc d)"
proof -
  from assms have step: "onWsPacket r packet =
           r\<lparr>ssrcMap := SSRCMap_update
                \<lparr>userId = user, audioSSRC = audio,
                 videoSSRC = (if d_video_ssrc d = Some 0 then None else d_video_ssrc d)\<rparr>
                (ssrcMap r)\<rparr>"
    by (simp add: onWsPacket_def optional_field_def)
  show ?thesis
    unfolding step by (simp add: SSRCMap_get_def SSRCMap_update_def)
qed

theorem clientConnect_records_video_ssrc_witness:
  "map_option videoSSRC
     (SSRCMap_get (ssrcMap (onWsPacket newVoiceReceiver (connectPacket (Some 0)))) (UserId ''user'')) =
     Some None \<and>
   map_option videoSSRC
     (SSRCMap_get (ssrcMap (onWsPacket newVoiceReceiver (connectPacket (Some 77)))) (UserId ''user'')) =
     Some (Some 77)"
proof -
  let ?d = "\<lambda>video. \<lparr>d_user_id = JString ''user'', d_ssrc = JUndefined,
                        d_audio_ssrc = JNumber 1234, d_video_ssrc = video\<rparr>"
  have "map_option videoSSRC
     (SSRCMap_get (ssrcMap (onWsPacket newVoiceReceiver (connectPacket (Some 0)))) (UserId ''user'')) =
     Some (if d_video_ssrc (?d (Some 0)) = Some 0 then None else d_video_ssrc (?d (Some 0)))"
    by (rule clientConnect_records_video_ssrc [THEN conjunct2]) (simp_all add: connectPacket_def)
  moreover have "map_option videoSSRC
     (SSRCMap_get (ssrcMap (onWsPacket newVoiceReceiver (connectPacket (Some 77)))) (UserId ''user'')) =
     Some (if d_video_ssrc (?d (Some 77)) = Some 0 then None else d_video_ssrc (?d (Some 77)))"
    by (rule clientConnect_records_video_ssrc [THEN conjunct2]) (simp_all add: connectPacket_def)
  ultimately show ?thesis by simp
qed

section \<open>Subscriptions\<close>

lemma subscribe_reaches_subscribedReceiver:
  "subscribe (onWsPacket newVoiceReceiver (speakingPacket 1234)) (SSRC 1234) = Inr (0, subscribedReceiver)"
  by (simp add: subscribe_def onWsPacket_def newVoiceReceiver_def speakingPacket_def optional_field_def
      SSRCMap_get_def SSRCMap_update_def subscribedReceiver_def newAudioReceiveStream_def
      stream_once_close_def)

text \<open>
  C6, as the source has it: \<^verbatim>\<open>subscribe\<close> throws exactly when the registry has no
  binding for the target or the binding's audio SSRC is \<open>0\<close> (the test is \<^verbatim>\<open>!ssrc\<close>),
  it throws no other error, and it returns a channel exactly when the registry resolves
  the target to a binding with a nonzero audio SSRC.
\<close>

theorem subscribe_throws_iff:
  "(subscribe r target = Inl NoKnownSSRC) =
     (SSRCMap_get (ssrcMap r) target = None \<or>
      map_option audioSSRC (SSRCMap_get (ssrcMap r) target) = Some 0) \<and>
   (\<exists>stream r'. subscribe r target = Inr (stream, r')) =
     (\<exists>data. SSRCMap_get (ssrcMap r) target = Some data \<and> 0 < audioSSRC data) \<and>
   subscribe r target \<noteq> Inl RangeError \<and>
   subscribe r target \<noteq> Inl FailedToParsePacket"
  by (auto simp: subscribe_def Let_def split: option.splits)

theorem subscribe_throws_iff_witness:
  "subscribe newVoiceReceiver (UserId ''user'') = Inl NoKnownSSRC \<and>
   subscribe (onWsPacket newVoiceReceiver (speakingPacket 0)) (UserId ''user'') = Inl NoKnownSSRC \<and>
   (\<exists>stream r'. subscribe (onWsPacket newVoiceReceiver (speakingPacket 1234)) (UserId ''user'') =
      Inr (stream, r'))"
  using subscribe_throws_iff [of newVoiceReceiver "UserId ''user''"]
    subscribe_throws_iff [of "onWsPacket newVoiceReceiver (speakingPacket 0)" "UserId ''user''"]
    subscribe_throws_iff [of "onWsPacket newVoiceReceiver (speakingPacket 1234)" "UserId ''user''"]
  by (simp add: onWsPacket_def newVoiceReceiver_def speakingPacket_def optional_field_def
      SSRCMap_get_def SSRCMap_update_def)

text \<open>
  C6 as stated lets \<^verbatim>\<open>subscribe\<close> succeed whenever the registry resolves the target.
  After a \<^verbatim>\<open>Speaking\<close> packet that announces the SSRC \<open>0\<close> the registry resolves the
  user to a binding, and \<^verbatim>\<open>subscribe\<close> throws.
\<close>

theorem subscribe_zero_ssrc_counterexample:
  "SSRCMap_get (ssrcMap (onWsPacket newVoiceReceiver (speakingPacket 0))) (UserId ''user'') =
     Some \<lparr>userId = ''user'', audioSSRC = 0, videoSSRC = None\<rparr> \<and>
   subscribe (onWsPacket newVoiceReceiver (speakingPacket 0)) (UserId ''user'') = Inl NoKnownSSRC"
  by (simp add: subscribe_def onWsPacket_def newVoiceReceiver_def speakingPacket_def optional_field_def
      SSRCMap_get_def SSRCMap_update_def)



section \<open>The datagram path\<close>

lemma readUInt32BE_short1234: "readUInt32BE shortDatagram1234 8 = Inr 1234"
  by (simp add: readUInt32BE_def shortDatagram1234_def header1234_def)

lemma readUInt32BE_datagram1234: "readUInt32BE datagram1234 8 = Inr 1234"
  by (simp add: readUInt32BE_def datagram1234_def header1234_def)



lemma subscribedReceiver_fields:
  "subscriptions (keyed mode subscribedReceiver) 1234 = Some 0"
  "SSRCMap_get (ssrcMap (keyed mode subscribedReceiver)) (SSRC 1234) =
     Some \<lparr>userId = ''user'', audioSSRC = 1234, videoSSRC = None\<rparr>"
  "connectionData (keyed mode subscribedReceiver) =
     \<lparr>encryptionMode = Some mode, nonceBuffer = Some nonce24, secretKey = Some sessionKey\<rparr>"
  by (simp_all add: keyed_def subscribedReceiver_def SSRCMap_get_def)

lemma onUdpMessage_silent_drop:
  assumes "length msg \<le> 8 \<or>
     (\<exists>ssrc. readUInt32BE msg 8 = Inr ssrc \<and>
        (subscriptions r ssrc = None \<or> SSRCMap_get (ssrcMap r) (SSRC ssrc) = None \<or>
         encryptionMode (connectionData r) = None \<or> nonceBuffer (connectionData r) = None \<or>
         secretKey (connectionData r) = None))"
  shows "onUdpMessage methods_open r msg = (None, r)"
  using assms
  by (auto simp: onUdpMessage_def split: option.splits)

lemma onUdpMessage_keeps_registrations:
  "subscriptions (snd (onUdpMessage methods_open r msg)) = subscriptions r \<and>
   length (heap (snd (onUdpMessage methods_open r msg))) = length (heap r) \<and>
   ssrcMap (snd (onUdpMessage methods_open r msg)) = ssrcMap r"
  by (simp add: onUdpMessage_def Let_def split: sum.split option.split prod.split)

lemma fold_delete_absent:
  "subs ssrc = None \<Longrightarrow> fold Map_delete ls subs ssrc = None"
proof (induction ls arbitrary: subs)
  case Nil
  then show ?case by simp
next
  case (Cons a ls)
  from Cons.prems have "Map_delete a subs ssrc = None"
    by (simp add: Map_delete_def)
  then have "fold Map_delete ls (Map_delete a subs) ssrc = None"
    by (rule Cons.IH)
  then show ?case by simp
qed

lemma fold_delete_member:
  "ssrc \<in> set ls \<Longrightarrow> fold Map_delete ls subs ssrc = None"
proof (induction ls arbitrary: subs)
  case Nil
  then show ?case by simp
next
  case (Cons a ls)
  show ?case
  proof (cases "a = ssrc")
    case True
    have "Map_delete ssrc subs ssrc = None"
      by (simp add: Map_delete_def)
    then have "fold Map_delete ls (Map_delete ssrc subs) ssrc = None"
      by (rule fold_delete_absent)
    with True show ?thesis by simp
  next
    case False
    with Cons show ?thesis by simp
  qed
qed

lemma emitClose_removes:
  "ssrc \<in> set (closeListeners (heap r ! stream)) \<Longrightarrow> subscriptions (emitClose r stream) ssrc = None"
  by (simp add: emitClose_def fold_delete_member)

lemma onUdpMessages_dropped:
  assumes "subscriptions r ssrc = None"
    and "\<forall>msg \<in> set msgs. readUInt32BE msg 8 = Inr ssrc"
  shows "onUdpMessages methods_open r msgs = (replicate (length msgs) None, r)"
  using assms(2)
proof (induction msgs)
  case Nil
  then show ?case by simp
next
  case (Cons msg msgs)
  then have "readUInt32BE msg 8 = Inr ssrc" by simp
  with assms(1) have "onUdpMessage methods_open r msg = (None, r)"
    by (intro onUdpMessage_silent_drop) blast
  with Cons show ?case by simp
qed

text \<open>
  C8: once the \<^verbatim>\<open>'close'\<close> event of a stream has run the listener that \<^verbatim>\<open>subscribe\<close>
  registered for an SSRC, the subscription of that SSRC is gone, and every datagram that
  carries the SSRC is dropped: \<^verbatim>\<open>onUdpMessage\<close> returns without an exception and leaves
  the state as it was, one datagram after the other. In no state and for no datagram
  does \<^verbatim>\<open>onUdpMessage\<close> change the subscriptions or create a stream.
\<close>

theorem closed_channel_drops_datagrams:
  assumes "ssrc \<in> set (closeListeners (heap r ! stream))"
    and "\<forall>msg \<in> set msgs. readUInt32BE msg 8 = Inr ssrc"
  shows "subscriptions (emitClose r stream) ssrc = None \<and>
         onUdpMessages methods_open (emitClose r stream) msgs =
           (replicate (length msgs) None, emitClose r stream) \<and>
         (\<forall>r' msg. subscriptions (snd (onUdpMessage methods_open r' msg)) = subscriptions r' \<and>
                    length (heap (snd (onUdpMessage methods_open r' msg))) = length (heap r'))"
  using emitClose_removes [OF assms(1)]
    onUdpMessages_dropped [OF emitClose_removes [OF assms(1)] assms(2)]
    onUdpMessage_keeps_registrations
  by simp

theorem closed_channel_drops_datagrams_witness:
  "fst (onUdpMessage echo_open (keyed ''xsalsa20_poly1305'' subscribedReceiver) datagram1234) = None \<and>
   map frames (heap (snd (onUdpMessage echo_open (keyed ''xsalsa20_poly1305'' subscribedReceiver)
      datagram1234))) = [[replicate 28 0x00]] \<and>
   subscriptions (emitClose (keyed ''xsalsa20_poly1305'' subscribedReceiver) 0) 1234 = None \<and>
   onUdpMessages echo_open (emitClose (keyed ''xsalsa20_poly1305'' subscribedReceiver) 0)
       [datagram1234, shortDatagram1234] =
     ([None, None], emitClose (keyed ''xsalsa20_poly1305'' subscribedReceiver) 0)"
proof -
  have listener: "1234 \<in> set (closeListeners (heap (keyed ''xsalsa20_poly1305'' subscribedReceiver) ! 0))"
    by (simp add: keyed_def subscribedReceiver_def)
  have carried: "\<forall>msg \<in> set [datagram1234, shortDatagram1234]. readUInt32BE msg 8 = Inr 1234"
    by (simp add: readUInt32BE_short1234 readUInt32BE_datagram1234)
  have before: "parsePacket echo_open datagram1234 ''xsalsa20_poly1305'' nonce24 sessionKey =
      (header1234 @ replicate 12 0xFF, Inr (Some (replicate 28 0x00)))"
    by code_simp
  have long: "\<not> length datagram1234 \<le> 8"
    by (simp add: datagram1234_def header1234_def)
  have delivered: "fst (onUdpMessage echo_open (keyed ''xsalsa20_poly1305'' subscribedReceiver) datagram1234) = None"
    "map frames (heap (snd (onUdpMessage echo_open (keyed ''xsalsa20_poly1305'' subscribedReceiver)
      datagram1234))) = [[replicate 28 0x00]]"
    using before long
    by (simp_all add: onUdpMessage_def readUInt32BE_short1234 readUInt32BE_datagram1234 subscribedReceiver_fields)
      (simp_all add: keyed_def subscribedReceiver_def stream_push_def)
  from closed_channel_drops_datagrams [OF listener carried, of echo_open] delivered
  show ?thesis by simp
qed

text \<open>
  When the opening primitive rejects a datagram, \<^verbatim>\<open>onUdpMessage\<close> returns without an
  exception and destroys the stream subscribed for the SSRC of the datagram. The other
  streams, the subscriptions, the registry, the mode and the key stay as they were; the
  nonce buffer holds what \<^verbatim>\<open>decrypt\<close> copied into it.
\<close>

lemma onUdpMessage_decode_failure:
  assumes "readUInt32BE msg 8 = Inr ssrc"
    and "subscriptions r ssrc = Some stream"
    and "SSRCMap_get (ssrcMap r) (SSRC ssrc) = Some userData"
    and "connectionData r = \<lparr>encryptionMode = Some mode, nonceBuffer = Some nonce, secretKey = Some key\<rparr>"
    and "mode \<noteq> []"
    and "parsePacket methods_open msg mode nonce key = (nonce', Inr None)"
  shows "onUdpMessage methods_open r msg =
           (None,
            r\<lparr>connectionData := (connectionData r)\<lparr>nonceBuffer := Some nonce'\<rparr>,
              heap := (heap r)[stream := stream_destroy FailedToParsePacket (heap r ! stream)]\<rparr>)"
proof -
  from assms(1) have "\<not> length msg \<le> 8"
    by (auto simp: readUInt32BE_def split: if_splits)
  with assms show ?thesis
    by (simp add: onUdpMessage_def)
qed

lemma onUdpMessage_decode_failure_scope:
  assumes "readUInt32BE msg 8 = Inr ssrc"
    and "subscriptions r ssrc = Some stream"
    and "SSRCMap_get (ssrcMap r) (SSRC ssrc) = Some userData"
    and "connectionData r = \<lparr>encryptionMode = Some mode, nonceBuffer = Some nonce, secretKey = Some key\<rparr>"
    and "mode \<noteq> []"
    and "parsePacket methods_open msg mode nonce key = (nonce', Inr None)"
    and "other \<noteq> stream"
  shows "heap (snd (onUdpMessage methods_open r msg)) ! other = heap r ! other"
    and "subscriptions (snd (onUdpMessage methods_open r msg)) = subscriptions r"
    and "ssrcMap (snd (onUdpMessage methods_open r msg)) = ssrcMap r"
    and "encryptionMode (connectionData (snd (onUdpMessage methods_open r msg))) = Some mode"
    and "secretKey (connectionData (snd (onUdpMessage methods_open r msg))) = Some key"
  using assms(4,7)
  by (simp_all add: onUdpMessage_decode_failure [OF assms(1-6)])

text \<open>
  C4 asks that no exception leaves \<^verbatim>\<open>onUdpMessage\<close>. Three reads of the source are not
  guarded, and the \<^verbatim>\<open>RangeError\<close> of each leaves \<^verbatim>\<open>onUdpMessage\<close>: \<^verbatim>\<open>readUInt32BE(8)\<close> on
  a datagram of 9 to 11 bytes (in any state of the receiver); \<^verbatim>\<open>buffer.copy\<close> in the
  suffix mode on a datagram shorter than 24 bytes; and \<^verbatim>\<open>readUInt8(offset)\<close> after the
  header extensions when the counted elements reach the end of the decrypted packet.
\<close>

theorem onUdpMessage_lets_exceptions_escape:
  "onUdpMessage methods_open r datagram9 = (Some RangeError, r) \<and>
   onUdpMessage methods_open (keyed ''xsalsa20_poly1305_suffix'' subscribedReceiver) shortDatagram1234 =
     (Some RangeError, keyed ''xsalsa20_poly1305_suffix'' subscribedReceiver) \<and>
   fst (onUdpMessage (opens_to payloadOverrun) (keyed ''xsalsa20_poly1305'' subscribedReceiver)
          datagram1234) = Some RangeError"
proof (intro conjI)
  show "onUdpMessage methods_open r datagram9 = (Some RangeError, r)"
    by (simp add: onUdpMessage_def readUInt32BE_def datagram9_def)
next
  have "length shortDatagram1234 < 24"
    by (simp add: shortDatagram1234_def header1234_def)
  then have "parsePacket methods_open shortDatagram1234 ''xsalsa20_poly1305_suffix'' nonce24 sessionKey =
      (nonce24, Inl RangeError)"
    by (simp add: parsePacket_def decrypt_suffix_short)
  moreover have "\<not> length shortDatagram1234 \<le> 8"
    by (simp add: shortDatagram1234_def header1234_def)
  ultimately show "onUdpMessage methods_open (keyed ''xsalsa20_poly1305_suffix'' subscribedReceiver)
      shortDatagram1234 = (Some RangeError, keyed ''xsalsa20_poly1305_suffix'' subscribedReceiver)"
    by (simp add: onUdpMessage_def readUInt32BE_short1234 readUInt32BE_datagram1234 subscribedReceiver_fields)
next
  have "parsePacket (opens_to payloadOverrun) datagram1234 ''xsalsa20_poly1305'' nonce24 sessionKey =
      (header1234 @ replicate 12 0xFF, Inl RangeError)"
    by code_simp
  moreover have "\<not> length datagram1234 \<le> 8"
    by (simp add: datagram1234_def header1234_def)
  ultimately show "fst (onUdpMessage (opens_to payloadOverrun)
      (keyed ''xsalsa20_poly1305'' subscribedReceiver) datagram1234) = Some RangeError"
    by (simp add: onUdpMessage_def readUInt32BE_short1234 readUInt32BE_datagram1234 subscribedReceiver_fields)
qed

text \<open>
  C5 asks for a silent drop whenever the cipher context is incomplete, for every
  datagram. A datagram of 10 bytes passes the length test \<^verbatim>\<open>msg.length <= 8\<close>, and
  \<^verbatim>\<open>readUInt32BE(8)\<close> raises before the subscriptions, the registry or the cipher context
  are looked at: a receiver with nothing subscribed, nothing bound and no cipher
  context is left unchanged, but by an exception.
\<close>

theorem short_datagram_not_dropped_silently:
  "length datagram10 = 10 \<and>
   encryptionMode (connectionData newVoiceReceiver) = None \<and>
   subscriptions newVoiceReceiver = Map.empty \<and>
   ssrcMap newVoiceReceiver = [] \<and>
   onUdpMessage methods_open newVoiceReceiver datagram10 = (Some RangeError, newVoiceReceiver)"
  by (simp add: onUdpMessage_def readUInt32BE_def datagram10_def newVoiceReceiver_def)
end
